theory Spec2Isabelle
  imports Complex_Main
begin

section \<open>Numbers\<close>

text \<open>
  The calculator of \<^verbatim>\<open>src/components/fd-calculator.tsx\<close> computes on JavaScript numbers.
  A finite number is modelled by the real it denotes. The arithmetic the code uses
  (\<^verbatim>\<open>+\<close>, \<^verbatim>\<open>-\<close>, \<^verbatim>\<open>*\<close>, \<^verbatim>\<open>/\<close> and \<^verbatim>\<open>Math.pow\<close>) is a parameter of the
  model, so that the one transcription of \<^verbatim>\<open>onSubmit\<close> can be read in exact real
  arithmetic (the types of the specification) and in IEEE 754 binary64 arithmetic.
\<close>

record arith =
  num_add :: "real \<Rightarrow> real \<Rightarrow> real"
  num_sub :: "real \<Rightarrow> real \<Rightarrow> real"
  num_mul :: "real \<Rightarrow> real \<Rightarrow> real"
  num_div :: "real \<Rightarrow> real \<Rightarrow> real"
  Math_pow :: "real \<Rightarrow> real \<Rightarrow> real"

text \<open>
  Exact arithmetic. \<open>powr\<close> is the real power for a positive base, which is where
  \<^verbatim>\<open>Math.pow\<close> is called after validation (lemma \<open>base_gt_one\<close> below).
\<close>

definition exact :: arith where
  "exact = \<lparr>num_add = (+), num_sub = (-), num_mul = (*), num_div = (/), Math_pow = (powr)\<rparr>"

text \<open>
  Binary64 arithmetic: every basic operation returns the exact result rounded to the
  nearest number with a 53 bit significand, ties to the even significand. The exponent of
  the last place is at least \<open>-1074\<close> (subnormal numbers). A result of magnitude
  \<open>2 ^ 1024\<close> or more is one that JavaScript turns into an infinity: the model keeps the
  rounded real, which then stands for that infinity (\<open>z_number\<close> below refuses it).
  \<^verbatim>\<open>Math.pow\<close> is implementation-approximated in ECMAScript, so it stays a parameter.
\<close>

definition round_half_even :: "real \<Rightarrow> int" where
  "round_half_even y =
     (let f = \<lfloor>y\<rfloor>
      in if y - of_int f < 1 / 2 then f
         else if 1 / 2 < y - of_int f then f + 1
         else if even f then f else f + 1)"

definition ulp_exponent :: "real \<Rightarrow> int" where
  "ulp_exponent x = max (\<lfloor>log 2 \<bar>x\<bar>\<rfloor> - 52) (- 1074)"

definition fl64 :: "real \<Rightarrow> real" where
  "fl64 x =
     (if x = 0 then 0
      else of_int (round_half_even (x / 2 powi ulp_exponent x)) * 2 powi ulp_exponent x)"

definition binary64 :: "(real \<Rightarrow> real \<Rightarrow> real) \<Rightarrow> arith" where
  "binary64 pow =
     \<lparr>num_add = (\<lambda>x y. fl64 (x + y)), num_sub = (\<lambda>x y. fl64 (x - y)),
      num_mul = (\<lambda>x y. fl64 (x * y)), num_div = (\<lambda>x y. fl64 (x / y)),
      Math_pow = pow\<rparr>"

section \<open>The form schema\<close>

text \<open>
  \<^verbatim>\<open>z.coerce.number\<close> applies \<^verbatim>\<open>Number(...)\<close> to the field and then checks the type:
  the coerced field is a number or \<^verbatim>\<open>NaN\<close>.
\<close>

datatype coerced = Num real | NaN

record 'n FormFields =
  principal :: 'n
  tenure :: 'n
  interestRate :: 'n
  compoundingFrequency :: string

type_synonym FormInput = "coerced FormFields"
type_synonym FormValues = "real FormFields"

datatype ZodIssueCode = invalid_type | too_small | too_big | invalid_enum_value

type_synonym ZodIssue = "string \<times> ZodIssueCode"

text \<open>\<^verbatim>\<open>.min(m, ...)\<close> and \<^verbatim>\<open>.max(m, ...)\<close> are inclusive bounds.\<close>

definition z_min :: "real \<Rightarrow> real \<Rightarrow> ZodIssueCode option" where
  "z_min m x = (if x < m then Some too_small else None)"

definition z_max :: "real \<Rightarrow> real \<Rightarrow> ZodIssueCode option" where
  "z_max m x = (if m < x then Some too_big else None)"

text \<open>
  A number schema reports \<^verbatim>\<open>invalid_type\<close> for \<^verbatim>\<open>NaN\<close> and stops; otherwise it runs
  every check and collects the issues.
\<close>

definition z_coerce_number ::
  "(real \<Rightarrow> ZodIssueCode option) list \<Rightarrow> coerced \<Rightarrow> ZodIssueCode list + real" where
  "z_coerce_number checks c =
     (case c of
        NaN \<Rightarrow> Inl [invalid_type]
      | Num x \<Rightarrow>
          (case List.map_filter (\<lambda>chk. chk x) checks of
             [] \<Rightarrow> Inr x
           | i # is \<Rightarrow> Inl (i # is)))"

definition frequencies :: "string list" where
  "frequencies = [''Annually'', ''Semi-annually'', ''Quarterly'', ''Monthly'']"

definition z_enum :: "string list \<Rightarrow> string \<Rightarrow> ZodIssueCode list + string" where
  "z_enum options s = (if s \<in> set options then Inr s else Inl [invalid_enum_value])"

definition issues_at :: "string \<Rightarrow> ZodIssueCode list + 'a \<Rightarrow> ZodIssue list" where
  "issues_at path r = (case r of Inl cs \<Rightarrow> map (Pair path) cs | Inr _ \<Rightarrow> [])"

text \<open>
  \<^verbatim>\<open>formSchema\<close>: an object schema parses every key and succeeds when no key has an
  issue.
\<close>

definition formSchema :: "FormInput \<Rightarrow> ZodIssue list + FormValues" where
  "formSchema raw =
     (let p = z_coerce_number [z_min 1] (principal raw);
          t = z_coerce_number [z_min 1] (tenure raw);
          r = z_coerce_number [z_min (1 / 10), z_max 100] (interestRate raw);
          f = z_enum frequencies (compoundingFrequency raw)
      in case (p, t, r, f) of
           (Inr pv, Inr tv, Inr rv, Inr fv) \<Rightarrow>
             Inr \<lparr>principal = pv, tenure = tv, interestRate = rv, compoundingFrequency = fv\<rparr>
         | _ \<Rightarrow>
             Inl (issues_at ''principal'' p @ issues_at ''tenure'' t
                  @ issues_at ''interestRate'' r @ issues_at ''compoundingFrequency'' f))"

section \<open>The explanation flow\<close>

text \<open>
  \<^verbatim>\<open>src/ai/flows/explain-fd-results.ts\<close>. The request carries the form values and the
  two computed results; the response has the one field \<^verbatim>\<open>explanation\<close>.
\<close>

record ExplainFDResultsInput = "real FormFields" +
  maturityAmount :: real
  totalInterest :: real

record ExplainFDResultsOutput =
  explanation :: string

datatype failure = NetworkError | MalformedResponse | Timeout | InvalidRequest | OtherFailure string

text \<open>
  \<^verbatim>\<open>ExplainFDResultsInputSchema\<close>: five \<^verbatim>\<open>z.number()\<close> fields and the enumeration of
  the frequencies. The flow admits a number when it is finite; a value of magnitude
  \<open>2 ^ 1024\<close> or more stands for an infinity and is refused.
\<close>

definition z_number :: "real \<Rightarrow> bool" where
  "z_number x = (\<bar>x\<bar> < 2 ^ 1024)"

definition ExplainFDResultsInputSchema :: "ExplainFDResultsInput \<Rightarrow> bool" where
  "ExplainFDResultsInputSchema input =
     (z_number (principal input)
      \<and> z_number (tenure input)
      \<and> z_number (interestRate input)
      \<and> compoundingFrequency input \<in> set frequencies
      \<and> z_number (ExplainFDResultsInput.maturityAmount input)
      \<and> z_number (ExplainFDResultsInput.totalInterest input))"

text \<open>
  The text-generation service behind \<^verbatim>\<open>prompt\<close> is external: it is a parameter, which
  fails or returns an output that may be \<^verbatim>\<open>null\<close>. The flow checks the request against the
  input schema and what it returns against \<^verbatim>\<open>ExplainFDResultsOutputSchema\<close>, which
  \<^verbatim>\<open>null\<close> does not satisfy.
\<close>

type_synonym prompt = "ExplainFDResultsInput \<Rightarrow> failure + ExplainFDResultsOutput option"

definition explainFDResultsFlow :: "prompt \<Rightarrow> ExplainFDResultsInput \<Rightarrow> failure + ExplainFDResultsOutput" where
  "explainFDResultsFlow prompt input =
     (if \<not> ExplainFDResultsInputSchema input then Inl InvalidRequest
      else case prompt input of
             Inl e \<Rightarrow> Inl e
           | Inr None \<Rightarrow> Inl MalformedResponse
           | Inr (Some output) \<Rightarrow> Inr output)"

definition explainFDResults :: "prompt \<Rightarrow> ExplainFDResultsInput \<Rightarrow> failure + ExplainFDResultsOutput" where
  "explainFDResults prompt input = explainFDResultsFlow prompt input"

section \<open>The calculation of \<^verbatim>\<open>onSubmit\<close>\<close>

record Results =
  maturityAmount :: real
  totalInterest :: real

text \<open>
  \<^verbatim>\<open>const n = {Annually: 1, "Semi-annually": 2, Quarterly: 4, Monthly: 12}[compoundingFrequency] || 1\<close>:
  a key that is not in the object, or a value of \<open>0\<close>, gives \<open>1\<close>. (Keys that a
  JavaScript object inherits are not modelled; the schema admits none of them.)
\<close>

definition onSubmit_n :: "string \<Rightarrow> real" where
  "onSubmit_n freq =
     (case map_of [(''Annually'', 1), (''Semi-annually'', 2), (''Quarterly'', 4), (''Monthly'', 12)] freq of
        None \<Rightarrow> 1
      | Some v \<Rightarrow> if v = 0 then 1 else v)"

definition onSubmit_results :: "arith \<Rightarrow> FormValues \<Rightarrow> Results" where
  "onSubmit_results A data =
     (let rate = num_div A (interestRate data) 100;
          n = onSubmit_n (compoundingFrequency data);
          maturity = num_mul A (principal data)
                       (Math_pow A (num_add A 1 (num_div A rate n)) (num_mul A n (tenure data)));
          interest = num_sub A maturity (principal data)
      in \<lparr>maturityAmount = maturity, totalInterest = interest\<rparr>)"

section \<open>The component \<^verbatim>\<open>FdCalculator\<close>\<close>

text \<open>
  The three \<^verbatim>\<open>useState\<close> cells and the errors of the form. A setter replaces the current
  value of its cell, so it is a record update.
\<close>

record Component =
  results :: "Results option"
  explanation :: "string option"
  isLoading :: bool
  errors :: "ZodIssue list"

definition initial :: Component where
  "initial = \<lparr>results = None, explanation = None, isLoading = False, errors = []\<rparr>"

definition fallback :: string where
  "fallback = ''Could not generate an explanation at this time. Please try again later.''"

text \<open>
  \<^verbatim>\<open>onSubmit\<close> up to its \<^verbatim>\<open>await\<close>: the three resets, the calculation,
  \<^verbatim>\<open>setResults\<close>, and the request handed to \<^verbatim>\<open>explainFDResults\<close>.
\<close>

definition onSubmit_request :: "FormValues \<Rightarrow> Results \<Rightarrow> ExplainFDResultsInput" where
  "onSubmit_request data r =
     \<lparr>principal = principal data, tenure = tenure data, interestRate = interestRate data,
      compoundingFrequency = compoundingFrequency data,
      ExplainFDResultsInput.maturityAmount = maturityAmount r,
      ExplainFDResultsInput.totalInterest = totalInterest r\<rparr>"

definition onSubmit_start :: "arith \<Rightarrow> Component \<Rightarrow> FormValues \<Rightarrow> Component \<times> ExplainFDResultsInput" where
  "onSubmit_start A c data =
     (let c1 = c\<lparr>isLoading := True\<rparr>;
          c2 = c1\<lparr>results := None\<rparr>;
          c3 = c2\<lparr>Component.explanation := None\<rparr>;
          r = onSubmit_results A data;
          c4 = c3\<lparr>results := Some r\<rparr>
      in (c4, onSubmit_request data r))"

text \<open>
  \<^verbatim>\<open>onSubmit\<close> after the \<^verbatim>\<open>await\<close>, on the component as it is when the call settles:
  the \<^verbatim>\<open>try\<close> block, the \<^verbatim>\<open>catch\<close> block and the \<^verbatim>\<open>finally\<close> block. \<open>Inl\<close> in the
  result would be a rejection of the promise that \<^verbatim>\<open>onSubmit\<close> returns.
\<close>

definition onSubmit_settle :: "Component \<Rightarrow> failure + ExplainFDResultsOutput \<Rightarrow> failure + Component" where
  "onSubmit_settle c outcome =
     (let tried = (case outcome of
                     Inl error \<Rightarrow> Inl error
                   | Inr aiResponse \<Rightarrow>
                       Inr (c\<lparr>Component.explanation := Some (ExplainFDResultsOutput.explanation aiResponse)\<rparr>));
          caught = (case tried of
                      Inl error \<Rightarrow> Inr (c\<lparr>Component.explanation := Some fallback\<rparr>)
                    | Inr c' \<Rightarrow> Inr c')
      in case caught of
           Inl error \<Rightarrow> Inl error
         | Inr c' \<Rightarrow> Inr (c'\<lparr>isLoading := False\<rparr>))"

text \<open>
  \<^verbatim>\<open>form.handleSubmit(onSubmit)\<close> with the \<^verbatim>\<open>zodResolver\<close>: the schema runs first; with
  issues they become the errors of the form and \<^verbatim>\<open>onSubmit\<close> is not called.
\<close>

definition handleSubmit :: "arith \<Rightarrow> Component \<Rightarrow> FormInput \<Rightarrow> Component \<times> ExplainFDResultsInput option" where
  "handleSubmit A c raw =
     (case formSchema raw of
        Inl issues \<Rightarrow> (c\<lparr>errors := issues\<rparr>, None)
      | Inr data \<Rightarrow>
          (case onSubmit_start A (c\<lparr>errors := []\<rparr>) data of
             (c', request) \<Rightarrow> (c', Some request)))"

text \<open>One whole submission whose call settles with \<open>outcome\<close>.\<close>

definition submit :: "arith \<Rightarrow> Component \<Rightarrow> FormInput \<Rightarrow> (ExplainFDResultsInput \<Rightarrow> failure + ExplainFDResultsOutput) \<Rightarrow> failure + Component" where
  "submit A c raw call =
     (case handleSubmit A c raw of
        (c', None) \<Rightarrow> Inr c'
      | (c', Some request) \<Rightarrow> onSubmit_settle c' (call request))"

subsection \<open>What is rendered\<close>

text \<open>In a JSX condition an absent or empty string is false.\<close>

definition truthy :: "string option \<Rightarrow> bool" where
  "truthy s = (s \<noteq> None \<and> s \<noteq> Some [])"

definition button_disabled :: "Component \<Rightarrow> bool" where
  "button_disabled c = isLoading c"

definition footer_shown :: "Component \<Rightarrow> bool" where
  "footer_shown c = (isLoading c \<or> results c \<noteq> None \<or> truthy (Component.explanation c))"

definition displayed_results :: "Component \<Rightarrow> Results option" where
  "displayed_results c =
     (if footer_shown c \<and> results c \<noteq> None \<and> \<not> isLoading c then results c else None)"

definition displayed_explanation :: "Component \<Rightarrow> string option" where
  "displayed_explanation c =
     (if footer_shown c \<and> (isLoading c \<or> truthy (Component.explanation c))
         \<and> \<not> (isLoading c \<and> \<not> truthy (Component.explanation c))
      then Component.explanation c else None)"

subsection \<open>Submissions and pending calls\<close>

text \<open>
  The component, the component as it was last rendered, and the calls that have not
  settled yet. \<open>Submit\<close> is a submit event that reaches \<^verbatim>\<open>form.handleSubmit(onSubmit)\<close>:
  neither that handler nor \<^verbatim>\<open>onSubmit\<close> looks at \<^verbatim>\<open>isLoading\<close>, so it runs in every state.
  The resolver that the handler awaits first is the schema alone and reads nothing of the
  component, so the step takes the event as far as the \<^verbatim>\<open>await\<close> in \<^verbatim>\<open>onSubmit\<close>.
  \<open>Render\<close> is React rendering the current state, which is when the button gets its
  \<^verbatim>\<open>disabled={isLoading}\<close>. A pending call settles at any later time with any outcome.
\<close>

record System =
  ui :: Component
  rendered :: Component
  pending :: "ExplainFDResultsInput list"

datatype event = Submit FormInput | Render | Settle nat "failure + ExplainFDResultsOutput"

definition drop_nth :: "nat \<Rightarrow> 'a list \<Rightarrow> 'a list" where
  "drop_nth k xs = take k xs @ drop (Suc k) xs"

fun step :: "arith \<Rightarrow> System \<Rightarrow> event \<Rightarrow> System option" where
  "step A s (Submit raw) =
     (case handleSubmit A (ui s) raw of
        (c, None) \<Rightarrow> Some (s\<lparr>ui := c\<rparr>)
      | (c, Some request) \<Rightarrow> Some (s\<lparr>ui := c, pending := pending s @ [request]\<rparr>))"
| "step A s Render = Some (s\<lparr>rendered := ui s\<rparr>)"
| "step A s (Settle k outcome) =
     (if k < length (pending s)
      then case onSubmit_settle (ui s) outcome of
             Inl error \<Rightarrow> Some (s\<lparr>pending := drop_nth k (pending s)\<rparr>)
           | Inr c \<Rightarrow> Some (s\<lparr>ui := c, pending := drop_nth k (pending s)\<rparr>)
      else None)"

fun run :: "arith \<Rightarrow> System \<Rightarrow> event list \<Rightarrow> System option" where
  "run A s [] = Some s"
| "run A s (e # es) = (case step A s e of None \<Rightarrow> None | Some s' \<Rightarrow> run A s' es)"

definition start :: System where
  "start = \<lparr>ui = initial, rendered = initial, pending = []\<rparr>"

text \<open>
  A click on the submit button is possible when the page shows the current state and the
  button on it is enabled. \<open>through_button\<close> holds of a run in which every submit event is
  such a click.
\<close>

definition clickable :: "System \<Rightarrow> bool" where
  "clickable s = (rendered s = ui s \<and> \<not> button_disabled (rendered s))"

fun through_button :: "arith \<Rightarrow> System \<Rightarrow> event list \<Rightarrow> bool" where
  "through_button A s [] = True"
| "through_button A s (e # es) =
     ((case e of Submit raw \<Rightarrow> clickable s | Render \<Rightarrow> True | Settle k outcome \<Rightarrow> True)
      \<and> (case step A s e of None \<Rightarrow> True | Some s' \<Rightarrow> through_button A s' es))"

text \<open>
  What holds between submissions and pending calls when every submission is a click: at
  most one call is pending, one is pending exactly while \<^verbatim>\<open>isLoading\<close> holds, and the
  results of the component are those sent with the pending call.
\<close>

definition single_flight :: "System \<Rightarrow> bool" where
  "single_flight s =
     (length (pending s) \<le> 1
      \<and> (isLoading (ui s) \<longleftrightarrow> pending s \<noteq> [])
      \<and> (\<forall>request \<in> set (pending s).
            results (ui s) = Some \<lparr>maturityAmount = ExplainFDResultsInput.maturityAmount request,
                                   totalInterest = ExplainFDResultsInput.totalInterest request\<rparr>))"

section \<open>The specification's calculator\<close>

text \<open>
  The specification names the frequencies \<open>Annually\<close>, \<open>SemiAnnually\<close>, \<open>Quarterly\<close>
  and \<open>Monthly\<close> and maps them to the periods per year; \<open>label\<close> is the string the
  form uses for each of them. \<open>spec_maturityAmount\<close> is the formula of the specification,
  written in the arithmetic \<open>A\<close>.
\<close>

datatype CompoundingFrequency = Annually | SemiAnnually | Quarterly | Monthly

fun spec_n :: "CompoundingFrequency \<Rightarrow> real" where
  "spec_n Annually = 1"
| "spec_n SemiAnnually = 2"
| "spec_n Quarterly = 4"
| "spec_n Monthly = 12"

fun label :: "CompoundingFrequency \<Rightarrow> string" where
  "label Annually = ''Annually''"
| "label SemiAnnually = ''Semi-annually''"
| "label Quarterly = ''Quarterly''"
| "label Monthly = ''Monthly''"

definition spec_maturityAmount :: "arith \<Rightarrow> real \<Rightarrow> real \<Rightarrow> real \<Rightarrow> CompoundingFrequency \<Rightarrow> real" where
  "spec_maturityAmount A p t r f =
     num_mul A p (Math_pow A (num_add A 1 (num_div A (num_div A r 100) (spec_n f))) (num_mul A (spec_n f) t))"

section \<open>Example submissions\<close>

text \<open>The \<^verbatim>\<open>defaultValues\<close> of the form.\<close>

definition defaultValues :: FormInput where
  "defaultValues = \<lparr>principal = Num 100000, tenure = Num 5, interestRate = Num (13 / 2),
     compoundingFrequency = ''Annually''\<rparr>"

definition example_input :: FormInput where
  "example_input = \<lparr>principal = Num 100000, tenure = Num 5, interestRate = Num (13 / 2),
     compoundingFrequency = ''Monthly''\<rparr>"

definition example_data :: FormValues where
  "example_data = \<lparr>principal = 100000, tenure = 5, interestRate = 13 / 2,
     compoundingFrequency = ''Monthly''\<rparr>"

text \<open>The example of one year with annual compounding.\<close>

definition annual_input :: FormInput where
  "annual_input = \<lparr>principal = Num 100000, tenure = Num 1, interestRate = Num (13 / 2),
     compoundingFrequency = ''Annually''\<rparr>"

definition annual_data :: FormValues where
  "annual_data = \<lparr>principal = 100000, tenure = 1, interestRate = 13 / 2,
     compoundingFrequency = ''Annually''\<rparr>"

definition annual_request :: ExplainFDResultsInput where
  "annual_request = \<lparr>principal = 100000, tenure = 1, interestRate = 13 / 2,
     compoundingFrequency = ''Annually'',
     ExplainFDResultsInput.maturityAmount = 106500, ExplainFDResultsInput.totalInterest = 6500\<rparr>"

text \<open>A text-generation service whose answer tells which request it has received.\<close>

definition echo_prompt :: prompt where
  "echo_prompt input =
     Inr (Some \<lparr>ExplainFDResultsOutput.explanation =
       (if input = annual_request then ''the request as submitted'' else ''another request'')\<rparr>)"

text \<open>A validated submission whose maturity amount is beyond the binary64 range.\<close>

definition overflow_input :: FormInput where
  "overflow_input = \<lparr>principal = Num (10 ^ 308), tenure = Num 1, interestRate = Num 100,
     compoundingFrequency = ''Annually''\<rparr>"

definition overflow_data :: FormValues where
  "overflow_data = \<lparr>principal = 10 ^ 308, tenure = 1, interestRate = 100,
     compoundingFrequency = ''Annually''\<rparr>"

text \<open>
  Two submit events with no rendering in between, then the reply to the second call and
  after it the reply to the first; and a run of clicks on the rendered button.
\<close>

definition first_reply :: "failure + ExplainFDResultsOutput" where
  "first_reply = Inr \<lparr>ExplainFDResultsOutput.explanation = ''first''\<rparr>"

definition second_reply :: "failure + ExplainFDResultsOutput" where
  "second_reply = Inr \<lparr>ExplainFDResultsOutput.explanation = ''second''\<rparr>"

definition two_submissions :: "event list" where
  "two_submissions = [Submit annual_input, Submit example_input]"

definition late_reply :: "event list" where
  "late_reply = [Submit annual_input, Submit example_input, Settle 1 second_reply, Settle 0 first_reply]"

definition button_run :: "event list" where
  "button_run = [Submit (defaultValues\<lparr>tenure := Num 0\<rparr>), Render, Submit example_input, Render]"

text \<open>
  A \<^verbatim>\<open>Math.pow\<close> that returns its base for the exponent \<open>1\<close>, as the usual
  implementations do, and the correctly rounded power otherwise.
\<close>

definition pow_exact_at_one :: "real \<Rightarrow> real \<Rightarrow> real" where
  "pow_exact_at_one x y = (if y = 1 then x else fl64 (x powr y))"

section \<open>Validation\<close>

lemma z_coerce_number_NaN: "z_coerce_number checks NaN = Inl [invalid_type]"
  by (simp add: z_coerce_number_def)

lemma z_coerce_number_min:
  "z_coerce_number [z_min m] (Num x) = (if x < m then Inl [too_small] else Inr x)"
  by (simp add: z_coerce_number_def z_min_def map_filter_simps)

lemma z_coerce_number_min_max:
  "z_coerce_number [z_min a, z_max b] (Num x) =
     (if x < a then (if b < x then Inl [too_small, too_big] else Inl [too_small])
      else if b < x then Inl [too_big] else Inr x)"
  by (simp add: z_coerce_number_def z_min_def z_max_def map_filter_simps)

lemma formSchema_Num:
  "formSchema \<lparr>principal = Num p, tenure = Num t, interestRate = Num r, compoundingFrequency = f\<rparr> =
     (if 1 \<le> p \<and> 1 \<le> t \<and> 1 / 10 \<le> r \<and> r \<le> 100 \<and> f \<in> set frequencies
      then Inr \<lparr>principal = p, tenure = t, interestRate = r, compoundingFrequency = f\<rparr>
      else Inl ((if p < 1 then [(''principal'', too_small)] else [])
                @ (if t < 1 then [(''tenure'', too_small)] else [])
                @ (if r < 1 / 10 then [(''interestRate'', too_small)] else [])
                @ (if 100 < r then [(''interestRate'', too_big)] else [])
                @ (if f \<in> set frequencies then [] else [(''compoundingFrequency'', invalid_enum_value)])))"
  by (simp add: formSchema_def Let_def z_coerce_number_min z_coerce_number_min_max z_enum_def
      issues_at_def not_le)

lemma formSchema_NaN:
  "principal raw = NaN \<or> tenure raw = NaN \<or> interestRate raw = NaN \<Longrightarrow> \<exists>issues. formSchema raw = Inl issues"
  by (auto simp: formSchema_def Let_def z_coerce_number_NaN split: sum.splits)

lemma formSchema_Inr:
  "formSchema raw = Inr data \<longleftrightarrow>
     principal raw = Num (principal data) \<and> tenure raw = Num (tenure data)
     \<and> interestRate raw = Num (interestRate data)
     \<and> compoundingFrequency raw = compoundingFrequency data
     \<and> 1 \<le> principal data \<and> 1 \<le> tenure data
     \<and> 1 / 10 \<le> interestRate data \<and> interestRate data \<le> 100
     \<and> compoundingFrequency data \<in> set frequencies"
proof (cases raw)
  case (fields cp ct cr f)
  show ?thesis
  proof (cases "cp = NaN \<or> ct = NaN \<or> cr = NaN")
    case True
    with fields formSchema_NaN [of raw] show ?thesis by auto
  next
    case False
    then obtain p t r where "cp = Num p" "ct = Num t" "cr = Num r"
      by (metis coerced.exhaust)
    with fields show ?thesis
      by (cases data) (auto simp: formSchema_Num)
  qed
qed

lemma frequencies_label: "s \<in> set frequencies \<longleftrightarrow> (\<exists>f. s = label f)"
proof
  assume "s \<in> set frequencies"
  then consider "s = label Annually" | "s = label SemiAnnually" | "s = label Quarterly" | "s = label Monthly"
    by (auto simp: frequencies_def)
  then show "\<exists>f. s = label f" by blast
next
  assume "\<exists>f. s = label f"
  then obtain f where "s = label f" ..
  then show "s \<in> set frequencies" by (cases f) (simp_all add: frequencies_def)
qed

lemma onSubmit_n_label: "onSubmit_n (label f) = spec_n f"
  by (cases f) (simp_all add: onSubmit_n_def)

lemma onSubmit_n_pos: "1 \<le> onSubmit_n s"
  by (auto simp: onSubmit_n_def split: option.splits if_splits)

lemma onSubmit_n_Annually: "onSubmit_n ''Annually'' = 1"
  by (simp add: onSubmit_n_def)

lemma onSubmit_n_le: "onSubmit_n s \<le> 12"
  by (auto simp: onSubmit_n_def split: option.splits if_splits)

lemma formSchema_annual: "formSchema annual_input = Inr annual_data"
  by (simp add: annual_input_def annual_data_def formSchema_Num frequencies_def)

lemma exact_simps [simp]:
  "num_add exact = (+)" "num_sub exact = (-)" "num_mul exact = (*)" "num_div exact = (/)"
  "Math_pow exact = (powr)"
  by (simp_all add: exact_def)

lemma onSubmit_results_label:
  "compoundingFrequency data = label f \<Longrightarrow>
   onSubmit_results A data =
     \<lparr>maturityAmount = spec_maturityAmount A (principal data) (tenure data) (interestRate data) f,
      totalInterest = num_sub A (spec_maturityAmount A (principal data) (tenure data) (interestRate data) f) (principal data)\<rparr>"
  by (simp add: onSubmit_results_def Let_def spec_maturityAmount_def onSubmit_n_label)

lemma base_gt_one:
  assumes "formSchema raw = Inr data"
  shows "1 < 1 + interestRate data / 100 / onSubmit_n (compoundingFrequency data)"
proof -
  from assms have "0 < interestRate data" by (simp add: formSchema_Inr)
  moreover have "0 < onSubmit_n (compoundingFrequency data)"
    using onSubmit_n_pos [of "compoundingFrequency data"] by linarith
  ultimately show ?thesis by simp
qed

section \<open>The calculator\<close>

text \<open>
  C1: for every validated submission the periods per year are the fixed mapping
  Annually 1, SemiAnnually 2, Quarterly 4, Monthly 12, the maturity amount is
  \<open>principal * (1 + (rate / 100) / n) ^ (n * tenure)\<close> and the total interest is the
  maturity amount minus the principal. This holds in every arithmetic \<open>A\<close> (the code
  computes the formula operation by operation); in exact arithmetic it is the closed
  formula over the reals.
\<close>

theorem calculator_formula:
  assumes "formSchema raw = Inr data"
  shows "\<exists>f. compoundingFrequency data = label f
           \<and> onSubmit_n (compoundingFrequency data) = spec_n f
           \<and> maturityAmount (onSubmit_results A data)
               = spec_maturityAmount A (principal data) (tenure data) (interestRate data) f
           \<and> totalInterest (onSubmit_results A data)
               = num_sub A (maturityAmount (onSubmit_results A data)) (principal data)
           \<and> maturityAmount (onSubmit_results exact data)
               = principal data * (1 + (interestRate data / 100) / spec_n f) powr (spec_n f * tenure data)
           \<and> totalInterest (onSubmit_results exact data)
               = maturityAmount (onSubmit_results exact data) - principal data"
proof -
  from assms have "compoundingFrequency data \<in> set frequencies"
    by (simp add: formSchema_Inr)
  then obtain f where f: "compoundingFrequency data = label f"
    by (auto simp: frequencies_label)
  show ?thesis
  proof (intro exI [of _ f] conjI)
    show "compoundingFrequency data = label f" by (fact f)
    show "onSubmit_n (compoundingFrequency data) = spec_n f" by (simp add: f onSubmit_n_label)
  qed (simp_all add: onSubmit_results_label [OF f] spec_maturityAmount_def)
qed

lemma formSchema_example: "formSchema example_input = Inr example_data"
  by (simp add: example_input_def example_data_def formSchema_Num frequencies_def)

theorem calculator_formula_witness:
  "formSchema example_input = Inr example_data
   \<and> maturityAmount (onSubmit_results exact example_data) = 100000 * (1 + 13 / 2400) powr 60
   \<and> totalInterest (onSubmit_results exact example_data) = 100000 * (1 + 13 / 2400) powr 60 - 100000"
proof -
  from calculator_formula [OF formSchema_example, of exact]
  obtain f where f: "compoundingFrequency example_data = label f"
    and m: "maturityAmount (onSubmit_results exact example_data)
       = principal example_data * (1 + (interestRate example_data / 100) / spec_n f) powr (spec_n f * tenure example_data)"
    and i: "totalInterest (onSubmit_results exact example_data)
       = maturityAmount (onSubmit_results exact example_data) - principal example_data"
    by blast
  from f have "f = Monthly" by (cases f) (simp_all add: example_data_def)
  with m i show ?thesis by (simp add: formSchema_example example_data_def)
qed

section \<open>Submissions\<close>

lemma handleSubmit_valid:
  "formSchema raw = Inr data \<Longrightarrow>
   handleSubmit A c raw =
     (\<lparr>results = Some (onSubmit_results A data), explanation = None, isLoading = True, errors = []\<rparr>,
      Some (onSubmit_request data (onSubmit_results A data)))"
  by (cases c) (simp add: handleSubmit_def onSubmit_start_def Let_def)

lemma handleSubmit_invalid:
  "formSchema raw = Inl issues \<Longrightarrow> handleSubmit A c raw = (c\<lparr>errors := issues\<rparr>, None)"
  by (simp add: handleSubmit_def)

lemma onSubmit_settle_Inl:
  "onSubmit_settle c (Inl e) = Inr (c\<lparr>Component.explanation := Some fallback, isLoading := False\<rparr>)"
  by (simp add: onSubmit_settle_def)

lemma onSubmit_settle_Inr:
  "onSubmit_settle c (Inr aiResponse) =
     Inr (c\<lparr>Component.explanation := Some (ExplainFDResultsOutput.explanation aiResponse), isLoading := False\<rparr>)"
  by (simp add: onSubmit_settle_def)

lemma onSubmit_settle_total:
  "\<exists>c'. onSubmit_settle c outcome = Inr c' \<and> results c' = results c \<and> \<not> isLoading c' \<and> errors c' = errors c"
  by (cases outcome) (simp_all add: onSubmit_settle_Inl onSubmit_settle_Inr)

lemma submit_valid:
  assumes "formSchema raw = Inr data"
  shows "\<exists>d. submit A c raw call = Inr d \<and> results d = Some (onSubmit_results A data) \<and> \<not> isLoading d"
proof -
  let ?c' = "\<lparr>results = Some (onSubmit_results A data), explanation = None, isLoading = True, errors = []\<rparr>"
  let ?req = "onSubmit_request data (onSubmit_results A data)"
  from onSubmit_settle_total [of ?c' "call ?req"]
  obtain d where "onSubmit_settle ?c' (call ?req) = Inr d" "results d = results ?c'" "\<not> isLoading d"
    by blast
  then show ?thesis
    by (simp add: submit_def handleSubmit_valid [OF assms])
qed

lemma fallback_truthy: "truthy (Some fallback)"
  by (simp add: truthy_def fallback_def)

text \<open>
  C2: for every validated submission the total interest is the maturity amount minus the
  principal: as the subtraction of the arithmetic \<open>A\<close> the code computes in, exactly so
  over the reals, and these are the results the component holds.
\<close>

theorem interest_identity:
  assumes "formSchema raw = Inr data"
  shows "totalInterest (onSubmit_results A data)
           = num_sub A (maturityAmount (onSubmit_results A data)) (principal data)
         \<and> totalInterest (onSubmit_results exact data)
           = maturityAmount (onSubmit_results exact data) - principal data
         \<and> results (fst (handleSubmit A c raw)) = Some (onSubmit_results A data)"
  by (simp add: onSubmit_results_def Let_def handleSubmit_valid [OF assms])

theorem interest_identity_witness:
  "formSchema example_input = Inr example_data
   \<and> totalInterest (onSubmit_results exact example_data)
       = maturityAmount (onSubmit_results exact example_data) - 100000
   \<and> results (fst (handleSubmit exact initial example_input)) = Some (onSubmit_results exact example_data)"
  using interest_identity [OF formSchema_example, of exact initial] formSchema_example
  by (simp add: example_data_def)

text \<open>
  C3: for a form whose three numeric fields hold numbers and whose frequency is one of
  the four options, validation rejects the input and \<^verbatim>\<open>onSubmit\<close> does not run (the issues
  become the errors of the form, nothing else changes, no request is made) exactly when
  the principal is below 1, the tenure is below 1, or the rate is below 0.1 or above 100.
  The witness rejects principal 0, tenure 0, rate 0 and rate 101.
\<close>

theorem validation_rejects:
  assumes "principal raw = Num p" and "tenure raw = Num t" and "interestRate raw = Num r"
    and "compoundingFrequency raw \<in> set frequencies"
  shows "((\<exists>issues. issues \<noteq> [] \<and> formSchema raw = Inl issues
            \<and> handleSubmit A c raw = (c\<lparr>errors := issues\<rparr>, None))
          \<longleftrightarrow> (p < 1 \<or> t < 1 \<or> r < 1 / 10 \<or> 100 < r))
       \<and> ((\<exists>data c' request. formSchema raw = Inr data \<and> handleSubmit A c raw = (c', Some request))
          \<longleftrightarrow> \<not> (p < 1 \<or> t < 1 \<or> r < 1 / 10 \<or> 100 < r))"
proof -
  let ?bad = "p < 1 \<or> t < 1 \<or> r < 1 / 10 \<or> 100 < r"
  have "formSchema raw = formSchema \<lparr>principal = Num p, tenure = Num t, interestRate = Num r,
      compoundingFrequency = compoundingFrequency raw\<rparr>"
    by (simp add: formSchema_def assms)
  note fs = this [unfolded formSchema_Num]
  show ?thesis
  proof (cases ?bad)
    case True
    with fs assms(4) obtain issues where "issues \<noteq> []" "formSchema raw = Inl issues"
      by (auto split: if_splits)
    with True show ?thesis by (auto simp: handleSubmit_invalid)
  next
    case False
    with fs assms(4) obtain data where "formSchema raw = Inr data"
      by (auto split: if_splits)
    with False show ?thesis by (auto simp: handleSubmit_valid)
  qed
qed


theorem validation_rejects_witness:
  "(\<exists>issues. issues \<noteq> [] \<and> formSchema (defaultValues\<lparr>principal := Num 0\<rparr>) = Inl issues
      \<and> handleSubmit exact initial (defaultValues\<lparr>principal := Num 0\<rparr>) = (initial\<lparr>errors := issues\<rparr>, None))
   \<and> (\<exists>issues. issues \<noteq> [] \<and> formSchema (defaultValues\<lparr>tenure := Num 0\<rparr>) = Inl issues
      \<and> handleSubmit exact initial (defaultValues\<lparr>tenure := Num 0\<rparr>) = (initial\<lparr>errors := issues\<rparr>, None))
   \<and> (\<exists>issues. issues \<noteq> [] \<and> formSchema (defaultValues\<lparr>interestRate := Num 0\<rparr>) = Inl issues
      \<and> handleSubmit exact initial (defaultValues\<lparr>interestRate := Num 0\<rparr>) = (initial\<lparr>errors := issues\<rparr>, None))
   \<and> (\<exists>issues. issues \<noteq> [] \<and> formSchema (defaultValues\<lparr>interestRate := Num 101\<rparr>) = Inl issues
      \<and> handleSubmit exact initial (defaultValues\<lparr>interestRate := Num 101\<rparr>) = (initial\<lparr>errors := issues\<rparr>, None))
   \<and> (\<exists>data c' request. formSchema defaultValues = Inr data
      \<and> handleSubmit exact initial defaultValues = (c', Some request))"
proof (intro conjI)
  show "\<exists>issues. issues \<noteq> [] \<and> formSchema (defaultValues\<lparr>principal := Num 0\<rparr>) = Inl issues
      \<and> handleSubmit exact initial (defaultValues\<lparr>principal := Num 0\<rparr>) = (initial\<lparr>errors := issues\<rparr>, None)"
    using validation_rejects [of "defaultValues\<lparr>principal := Num 0\<rparr>" 0 5 "13 / 2" exact initial]
    by (simp add: defaultValues_def frequencies_def)
  show "\<exists>issues. issues \<noteq> [] \<and> formSchema (defaultValues\<lparr>tenure := Num 0\<rparr>) = Inl issues
      \<and> handleSubmit exact initial (defaultValues\<lparr>tenure := Num 0\<rparr>) = (initial\<lparr>errors := issues\<rparr>, None)"
    using validation_rejects [of "defaultValues\<lparr>tenure := Num 0\<rparr>" 100000 0 "13 / 2" exact initial]
    by (simp add: defaultValues_def frequencies_def)
  show "\<exists>issues. issues \<noteq> [] \<and> formSchema (defaultValues\<lparr>interestRate := Num 0\<rparr>) = Inl issues
      \<and> handleSubmit exact initial (defaultValues\<lparr>interestRate := Num 0\<rparr>) = (initial\<lparr>errors := issues\<rparr>, None)"
    using validation_rejects [of "defaultValues\<lparr>interestRate := Num 0\<rparr>" 100000 5 0 exact initial]
    by (simp add: defaultValues_def frequencies_def)
  show "\<exists>issues. issues \<noteq> [] \<and> formSchema (defaultValues\<lparr>interestRate := Num 101\<rparr>) = Inl issues
      \<and> handleSubmit exact initial (defaultValues\<lparr>interestRate := Num 101\<rparr>) = (initial\<lparr>errors := issues\<rparr>, None)"
    using validation_rejects [of "defaultValues\<lparr>interestRate := Num 101\<rparr>" 100000 5 101 exact initial]
    by (simp add: defaultValues_def frequencies_def)
  show "\<exists>data c' request. formSchema defaultValues = Inr data
      \<and> handleSubmit exact initial defaultValues = (c', Some request)"
    using validation_rejects [of defaultValues 100000 5 "13 / 2" exact initial]
    by (simp add: defaultValues_def frequencies_def)
qed

lemma explainFDResults_fails:
  "(\<exists>e. prompt request = Inl e) \<or> prompt request = Inr None \<Longrightarrow>
   \<exists>e'. explainFDResults prompt request = Inl e'"
  by (auto simp: explainFDResults_def explainFDResultsFlow_def)

text \<open>
  C4: when the call to the explanation flow fails, with whatever failure, the submission
  still completes (the result is \<open>Inr\<close>: the failure is not propagated) and the
  explanation held and displayed is the fixed fallback string.
\<close>

theorem explanation_fallback:
  assumes "formSchema raw = Inr data"
    and "call (onSubmit_request data (onSubmit_results A data)) = Inl e"
  shows "\<exists>d. submit A c raw call = Inr d
           \<and> Component.explanation d = Some fallback
           \<and> displayed_explanation d = Some fallback"
  using assms
  by (simp add: submit_def handleSubmit_valid onSubmit_settle_Inl displayed_explanation_def
      footer_shown_def fallback_truthy)

theorem explanation_fallback_witness:
  "(\<exists>d. submit exact initial example_input (explainFDResults (\<lambda>request. Inl Timeout)) = Inr d
           \<and> Component.explanation d = Some fallback
           \<and> displayed_explanation d = Some fallback)
   \<and> (\<exists>d. submit exact initial example_input (explainFDResults (\<lambda>request. Inl NetworkError)) = Inr d
           \<and> Component.explanation d = Some fallback
           \<and> displayed_explanation d = Some fallback)
   \<and> (\<exists>d. submit exact initial example_input (explainFDResults (\<lambda>request. Inr None)) = Inr d
           \<and> Component.explanation d = Some fallback
           \<and> displayed_explanation d = Some fallback)"
proof -
  let ?request = "onSubmit_request example_data (onSubmit_results exact example_data)"
  obtain e1 where 1: "explainFDResults (\<lambda>request. Inl Timeout) ?request = Inl e1"
    using explainFDResults_fails [of "\<lambda>request. Inl Timeout" ?request] by auto
  obtain e2 where 2: "explainFDResults (\<lambda>request. Inl NetworkError) ?request = Inl e2"
    using explainFDResults_fails [of "\<lambda>request. Inl NetworkError" ?request] by auto
  obtain e3 where 3: "explainFDResults (\<lambda>request. Inr None) ?request = Inl e3"
    using explainFDResults_fails [of "\<lambda>request. Inr None" ?request] by auto
  show ?thesis
    using explanation_fallback [where call = "explainFDResults (\<lambda>request. Inl Timeout)" and A = exact and c = initial and e = e1,
        OF formSchema_example 1]
      explanation_fallback [where call = "explainFDResults (\<lambda>request. Inl NetworkError)" and A = exact and c = initial and e = e2,
        OF formSchema_example 2]
      explanation_fallback [where call = "explainFDResults (\<lambda>request. Inr None)" and A = exact and c = initial and e = e3,
        OF formSchema_example 3]
    by blast
qed

text \<open>
  C5: for every validated submission the results are set to the computed values and are
  displayed once the call has settled, whatever the outcome of the call.
\<close>

theorem results_survive_failure:
  assumes "formSchema raw = Inr data"
  shows "\<exists>d. submit A c raw call = Inr d
           \<and> results d = Some (onSubmit_results A data)
           \<and> displayed_results d = Some (onSubmit_results A data)"
proof -
  from submit_valid [OF assms, of A c call]
  obtain d where "submit A c raw call = Inr d" "results d = Some (onSubmit_results A data)" "\<not> isLoading d"
    by blast
  then show ?thesis
    by (auto simp: displayed_results_def footer_shown_def)
qed

theorem results_survive_failure_witness:
  "(\<exists>d. submit exact initial example_input (\<lambda>request. Inl NetworkError) = Inr d
       \<and> results d = Some (onSubmit_results exact example_data)
       \<and> displayed_results d = Some (onSubmit_results exact example_data))
   \<and> (\<exists>d. submit exact initial example_input (\<lambda>request. Inr \<lparr>ExplainFDResultsOutput.explanation = ''text''\<rparr>) = Inr d
       \<and> results d = Some (onSubmit_results exact example_data)
       \<and> displayed_results d = Some (onSubmit_results exact example_data))"
  using results_survive_failure [OF formSchema_example, of exact initial "\<lambda>request. Inl NetworkError"]
    results_survive_failure [OF formSchema_example, of exact initial "\<lambda>request. Inr \<lparr>ExplainFDResultsOutput.explanation = ''text''\<rparr>"]
  by blast

text \<open>
  C6: two submissions of the same form values end with the same results, whatever the
  component held before and however the explanation call ends: the results depend on the
  submitted values alone.
\<close>

theorem calculator_deterministic:
  assumes "formSchema raw = Inr data"
  shows "\<exists>d1 d2. submit A c1 raw call1 = Inr d1 \<and> submit A c2 raw call2 = Inr d2
           \<and> results d1 = results d2 \<and> results d1 = Some (onSubmit_results A data)"
proof -
  from submit_valid [OF assms, of A c1 call1]
  obtain d1 where 1: "submit A c1 raw call1 = Inr d1" "results d1 = Some (onSubmit_results A data)"
    by blast
  from submit_valid [OF assms, of A c2 call2]
  obtain d2 where 2: "submit A c2 raw call2 = Inr d2" "results d2 = Some (onSubmit_results A data)"
    by blast
  from 1 2 show ?thesis by simp
qed

theorem calculator_deterministic_witness:
  "\<exists>d1 d2. submit exact initial example_input (\<lambda>request. Inl Timeout) = Inr d1
     \<and> submit exact (initial\<lparr>results := Some \<lparr>maturityAmount = 1, totalInterest = 2\<rparr>\<rparr>) example_input
          (\<lambda>request. Inr \<lparr>ExplainFDResultsOutput.explanation = ''text''\<rparr>) = Inr d2
     \<and> results d1 = results d2 \<and> results d1 = Some (onSubmit_results exact example_data)"
  using calculator_deterministic [OF formSchema_example, of exact initial "\<lambda>request. Inl Timeout"
      "initial\<lparr>results := Some \<lparr>maturityAmount = 1, totalInterest = 2\<rparr>\<rparr>"
      "\<lambda>request. Inr \<lparr>ExplainFDResultsOutput.explanation = ''text''\<rparr>"]
  by blast

lemma onSubmit_results_annual:
  "onSubmit_results exact annual_data = \<lparr>maturityAmount = 106500, totalInterest = 6500\<rparr>"
  by (simp add: onSubmit_results_def Let_def annual_data_def onSubmit_n_Annually)

lemma annual_request_schema: "ExplainFDResultsInputSchema annual_request"
  by (simp add: ExplainFDResultsInputSchema_def annual_request_def z_number_def frequencies_def)

text \<open>
  C8: for every validated submission the request handed to \<^verbatim>\<open>explainFDResults\<close> has the
  six fields: the four validated form values as submitted and the two computed results,
  which are the results the component holds. The flow passes that same request to the
  text-generation service, whichever service it is, unless a number in it is not finite or
  the frequency is unknown; then it refuses the request and the service is not called. A
  response is a record with the one string field \<open>explanation\<close>, which becomes the
  explanation of the component.
\<close>

theorem request_fields:
  assumes "formSchema raw = Inr data"
  shows "\<exists>c' request. handleSubmit A c raw = (c', Some request)
           \<and> principal raw = Num (principal request)
           \<and> tenure raw = Num (tenure request)
           \<and> interestRate raw = Num (interestRate request)
           \<and> compoundingFrequency raw = compoundingFrequency request
           \<and> results c' = Some \<lparr>maturityAmount = ExplainFDResultsInput.maturityAmount request,
                                totalInterest = ExplainFDResultsInput.totalInterest request\<rparr>
           \<and> ExplainFDResultsInput.maturityAmount request = maturityAmount (onSubmit_results A data)
           \<and> ExplainFDResultsInput.totalInterest request = totalInterest (onSubmit_results A data)
           \<and> (\<forall>prompt. explainFDResults prompt request =
                 (if ExplainFDResultsInputSchema request
                  then case prompt request of
                         Inl e \<Rightarrow> Inl e
                       | Inr None \<Rightarrow> Inl MalformedResponse
                       | Inr (Some output) \<Rightarrow> Inr output
                  else Inl InvalidRequest))
           \<and> (\<forall>prompt. submit A c raw (explainFDResults prompt) =
                 onSubmit_settle c' (explainFDResults prompt request))
           \<and> (\<forall>aiResponse. onSubmit_settle c' (Inr aiResponse) =
                 Inr (c'\<lparr>Component.explanation := Some (ExplainFDResultsOutput.explanation aiResponse),
                         isLoading := False\<rparr>))"
proof -
  let ?c' = "\<lparr>results = Some (onSubmit_results A data), explanation = None, isLoading = True, errors = []\<rparr>"
  let ?request = "onSubmit_request data (onSubmit_results A data)"
  have h: "handleSubmit A c raw = (?c', Some ?request)"
    by (rule handleSubmit_valid [OF assms])
  moreover from assms have "principal raw = Num (principal ?request)" "tenure raw = Num (tenure ?request)"
      "interestRate raw = Num (interestRate ?request)"
      "compoundingFrequency raw = compoundingFrequency ?request"
    by (simp_all add: formSchema_Inr onSubmit_request_def)
  moreover have "results ?c' = Some \<lparr>maturityAmount = ExplainFDResultsInput.maturityAmount ?request,
      totalInterest = ExplainFDResultsInput.totalInterest ?request\<rparr>"
    "ExplainFDResultsInput.maturityAmount ?request = maturityAmount (onSubmit_results A data)"
    "ExplainFDResultsInput.totalInterest ?request = totalInterest (onSubmit_results A data)"
    by (simp_all add: onSubmit_request_def)
  moreover have "\<forall>prompt. explainFDResults prompt ?request =
      (if ExplainFDResultsInputSchema ?request
       then case prompt ?request of
              Inl e \<Rightarrow> Inl e
            | Inr None \<Rightarrow> Inl MalformedResponse
            | Inr (Some output) \<Rightarrow> Inr output
       else Inl InvalidRequest)"
    by (simp add: explainFDResults_def explainFDResultsFlow_def)
  moreover have "\<forall>prompt. submit A c raw (explainFDResults prompt) =
      onSubmit_settle ?c' (explainFDResults prompt ?request)"
    by (simp add: submit_def h)
  moreover have "\<forall>aiResponse. onSubmit_settle ?c' (Inr aiResponse) =
      Inr (?c'\<lparr>Component.explanation := Some (ExplainFDResultsOutput.explanation aiResponse),
               isLoading := False\<rparr>)"
    by (simp add: onSubmit_settle_Inr)
  ultimately show ?thesis by blast
qed

theorem request_fields_witness:
  "(\<exists>c'. handleSubmit exact initial annual_input = (c', Some annual_request))
   \<and> explainFDResults echo_prompt annual_request
       = Inr \<lparr>ExplainFDResultsOutput.explanation = ''the request as submitted''\<rparr>
   \<and> submit exact initial annual_input (explainFDResults echo_prompt)
       = Inr \<lparr>results = Some \<lparr>maturityAmount = 106500, totalInterest = 6500\<rparr>,
              explanation = Some ''the request as submitted'', isLoading = False, errors = []\<rparr>"
proof -
  from request_fields [OF formSchema_annual, of exact initial]
  obtain c' request where h: "handleSubmit exact initial annual_input = (c', Some request)"
    and f: "principal annual_input = Num (principal request)"
      "tenure annual_input = Num (tenure request)"
      "interestRate annual_input = Num (interestRate request)"
      "compoundingFrequency annual_input = compoundingFrequency request"
      "ExplainFDResultsInput.maturityAmount request = maturityAmount (onSubmit_results exact annual_data)"
      "ExplainFDResultsInput.totalInterest request = totalInterest (onSubmit_results exact annual_data)"
    and r: "results c' = Some \<lparr>maturityAmount = ExplainFDResultsInput.maturityAmount request,
                                totalInterest = ExplainFDResultsInput.totalInterest request\<rparr>"
    and flow: "\<forall>prompt. explainFDResults prompt request =
                 (if ExplainFDResultsInputSchema request
                  then case prompt request of
                         Inl e \<Rightarrow> Inl e
                       | Inr None \<Rightarrow> Inl MalformedResponse
                       | Inr (Some output) \<Rightarrow> Inr output
                  else Inl InvalidRequest)"
    and sub: "\<forall>prompt. submit exact initial annual_input (explainFDResults prompt) =
                 onSubmit_settle c' (explainFDResults prompt request)"
    and settle: "\<forall>aiResponse. onSubmit_settle c' (Inr aiResponse) =
                 Inr (c'\<lparr>Component.explanation := Some (ExplainFDResultsOutput.explanation aiResponse),
                         isLoading := False\<rparr>)"
    by blast
  from f have request: "request = annual_request"
    by (cases request) (simp add: annual_input_def annual_request_def onSubmit_results_annual)
  from flow have echo: "explainFDResults echo_prompt annual_request
       = Inr \<lparr>ExplainFDResultsOutput.explanation = ''the request as submitted''\<rparr>"
    by (simp add: request annual_request_schema echo_prompt_def)
  from h have c': "c' = \<lparr>results = Some \<lparr>maturityAmount = 106500, totalInterest = 6500\<rparr>,
      explanation = None, isLoading = True, errors = []\<rparr>"
    by (simp add: handleSubmit_valid [OF formSchema_annual] onSubmit_results_annual)
  from sub settle have "submit exact initial annual_input (explainFDResults echo_prompt)
       = Inr \<lparr>results = Some \<lparr>maturityAmount = 106500, totalInterest = 6500\<rparr>,
              explanation = Some ''the request as submitted'', isLoading = False, errors = []\<rparr>"
    by (simp add: request echo c')
  with h echo show ?thesis by (auto simp: request)
qed

section \<open>One submission at a time\<close>

lemma formSchema_cases:
  obtains issues where "formSchema raw = Inl issues" | data where "formSchema raw = Inr data"
  by (cases "formSchema raw") auto

lemma single_flight_start: "single_flight start"
  by (simp add: single_flight_def start_def initial_def)

lemma single_flight_step:
  assumes "single_flight s" and "step A s e = Some s'"
    and "\<And>raw. e = Submit raw \<Longrightarrow> clickable s"
  shows "single_flight s'"
proof (cases e)
  case (Submit raw)
  with assms(3) have "clickable s" by simp
  then have idle: "\<not> isLoading (ui s)"
    by (auto simp: clickable_def button_disabled_def)
  with assms(1) have none: "pending s = []"
    by (simp add: single_flight_def)
  show ?thesis
  proof (cases raw rule: formSchema_cases)
    case (1 issues)
    with Submit assms(2) have "s' = s\<lparr>ui := (ui s)\<lparr>errors := issues\<rparr>\<rparr>"
      by (simp add: handleSubmit_invalid)
    with idle none show ?thesis by (simp add: single_flight_def)
  next
    case (2 data)
    with Submit assms(2) none show ?thesis
      by (auto simp: handleSubmit_valid single_flight_def onSubmit_request_def)
  qed
next
  case Render
  with assms(1,2) show ?thesis by (auto simp: single_flight_def)
next
  case (Settle k outcome)
  with assms(2) have k: "k < length (pending s)"
    by (auto split: if_splits)
  with assms(1) have "k = 0" "length (pending s) = 1"
    by (simp_all add: single_flight_def)
  then have "drop_nth k (pending s) = []"
    by (cases "pending s") (simp_all add: drop_nth_def)
  moreover obtain c' where "onSubmit_settle (ui s) outcome = Inr c'" "\<not> isLoading c'"
    using onSubmit_settle_total [of "ui s" outcome] by blast
  ultimately show ?thesis
    using Settle assms(2) k by (auto simp: single_flight_def)
qed

lemma single_flight_run:
  "single_flight s \<Longrightarrow> through_button A s es \<Longrightarrow> run A s es = Some s' \<Longrightarrow> single_flight s'"
proof (induction es arbitrary: s)
  case Nil
  then show ?case by simp
next
  case (Cons e es)
  from Cons.prems(3) obtain s1 where s1: "step A s e = Some s1" and rest: "run A s1 es = Some s'"
    by (auto split: option.splits)
  from Cons.prems(2) s1 have click: "e = Submit raw \<Longrightarrow> clickable s" for raw
    by auto
  from Cons.prems(2) s1 have tb: "through_button A s1 es" by simp
  from single_flight_step [OF Cons.prems(1) s1 click] have "single_flight s1" .
  from this tb rest show ?case by (rule Cons.IH)
qed

text \<open>
  C9, as stated, fails: the handler does not look at \<^verbatim>\<open>isLoading\<close>. After one submit
  event the button is still rendered enabled; a second submit event before the next
  rendering starts a second call, and two calls are pending. When the reply to the first
  call then arrives after the reply to the second, its explanation replaces the one of the
  newer submission, next to the results of the newer submission.
\<close>

theorem two_submissions_in_flight:
  "map_option (button_disabled \<circ> rendered) (run exact start [Submit annual_input]) = Some False
   \<and> map_option (length \<circ> pending) (run exact start two_submissions) = Some 2
   \<and> map_option (Component.explanation \<circ> ui) (run exact start late_reply) = Some (Some ''first'')
   \<and> map_option (results \<circ> ui) (run exact start late_reply) = Some (Some (onSubmit_results exact example_data))"
  by (simp add: two_submissions_def late_reply_def start_def initial_def button_disabled_def
      handleSubmit_valid [OF formSchema_annual] handleSubmit_valid [OF formSchema_example]
      first_reply_def second_reply_def onSubmit_settle_Inr drop_nth_def)

text \<open>
  C9, amended: when every submit event is a click on the submit button of a page that
  shows the current state, at most one call is pending; while one is pending the button
  is disabled and no such click is possible; and a call that settles leaves no call
  pending and leaves in place the results, which are the ones sent with that very call.
\<close>

theorem one_submission_in_flight:
  assumes "run A start es = Some s" and "through_button A start es"
  shows "length (pending s) \<le> 1
         \<and> (pending s \<noteq> [] \<longrightarrow> button_disabled (ui s) \<and> \<not> clickable s)
         \<and> (\<forall>k outcome s'. step A s (Settle k outcome) = Some s' \<longrightarrow>
               pending s' = [] \<and> results (ui s') = results (ui s)
               \<and> results (ui s') = Some \<lparr>maturityAmount = ExplainFDResultsInput.maturityAmount (pending s ! k),
                                          totalInterest = ExplainFDResultsInput.totalInterest (pending s ! k)\<rparr>)"
proof -
  from single_flight_run [OF single_flight_start assms(2,1)] have inv: "single_flight s" .
  then have len: "length (pending s) \<le> 1" by (simp add: single_flight_def)
  have busy: "button_disabled (ui s) \<and> \<not> clickable s" if "pending s \<noteq> []"
    using inv that by (auto simp: single_flight_def button_disabled_def clickable_def)
  have settle: "pending s' = [] \<and> results (ui s') = results (ui s)
      \<and> results (ui s') = Some \<lparr>maturityAmount = ExplainFDResultsInput.maturityAmount (pending s ! k),
                                 totalInterest = ExplainFDResultsInput.totalInterest (pending s ! k)\<rparr>"
    if st: "step A s (Settle k outcome) = Some s'" for k outcome s'
  proof -
    from st have k: "k < length (pending s)" by (auto split: if_splits)
    from k len have "pending s' = []"
      using st by (cases "pending s") (auto simp: drop_nth_def split: sum.splits)
    moreover obtain c' where c': "onSubmit_settle (ui s) outcome = Inr c'" "results c' = results (ui s)"
      using onSubmit_settle_total [of "ui s" outcome] by blast
    with st k have "results (ui s') = results (ui s)" by auto
    moreover from inv k have "results (ui s) = Some \<lparr>maturityAmount = ExplainFDResultsInput.maturityAmount (pending s ! k),
                                 totalInterest = ExplainFDResultsInput.totalInterest (pending s ! k)\<rparr>"
      by (simp add: single_flight_def)
    ultimately show ?thesis by simp
  qed
  from len busy settle show ?thesis by blast
qed

theorem one_submission_in_flight_witness:
  "\<exists>s. run exact start button_run = Some s
     \<and> through_button exact start button_run
     \<and> length (pending s) = 1
     \<and> button_disabled (ui s)
     \<and> \<not> clickable s
     \<and> (\<exists>s'. step exact s (Settle 0 (Inl Timeout)) = Some s' \<and> pending s' = []
            \<and> results (ui s') = Some (onSubmit_results exact example_data))"
proof -
  let ?c = "\<lparr>results = Some (onSubmit_results exact example_data), explanation = None,
      isLoading = True, errors = []\<rparr>"
  let ?s = "\<lparr>ui = ?c, rendered = ?c,
      pending = [onSubmit_request example_data (onSubmit_results exact example_data)]\<rparr>"
  have rej: "formSchema (defaultValues\<lparr>tenure := Num 0\<rparr>) = Inl [(''tenure'', too_small)]"
    by (simp add: defaultValues_def formSchema_Num frequencies_def)
  have run: "run exact start button_run = Some ?s"
    by (simp add: button_run_def start_def initial_def handleSubmit_invalid [OF rej]
        handleSubmit_valid [OF formSchema_example])
  have tb: "through_button exact start button_run"
    by (simp add: button_run_def start_def initial_def clickable_def button_disabled_def
        handleSubmit_invalid [OF rej] handleSubmit_valid [OF formSchema_example])
  have settle: "step exact ?s (Settle 0 (Inl Timeout)) =
      Some \<lparr>ui = ?c\<lparr>Component.explanation := Some fallback, isLoading := False\<rparr>, rendered = ?c, pending = []\<rparr>"
    by (simp add: onSubmit_settle_Inl drop_nth_def)
  from one_submission_in_flight [OF run tb] settle
  have "button_disabled (ui ?s)" "\<not> clickable ?s"
    "results (ui \<lparr>ui = ?c\<lparr>Component.explanation := Some fallback, isLoading := False\<rparr>, rendered = ?c, pending = []\<rparr>)
       = results (ui ?s)"
    by simp_all
  with run tb settle show ?thesis by simp
qed

section \<open>Binary64 rounding\<close>

lemma round_half_even_of_int: "round_half_even (of_int n) = n"
  by (simp add: round_half_even_def)

lemma round_half_even_close: "\<bar>of_int (round_half_even y) - y\<bar> \<le> 1 / 2"
  unfolding round_half_even_def Let_def
  by (auto simp: abs_le_iff)

lemma floor_log2_eq:
  assumes "2 powi k \<le> \<bar>x\<bar>" and "\<bar>x\<bar> < 2 powi (k + 1)"
  shows "\<lfloor>log 2 \<bar>x\<bar>\<rfloor> = k"
proof -
  have "(0::real) < 2 powi k" by simp
  with assms(1) have pos: "0 < \<bar>x\<bar>" by linarith
  have p1: "(2::real) powr real_of_int k = 2 powi k"
    by (rule powr_real_of_int') simp_all
  have p2: "(2::real) powr real_of_int (k + 1) = 2 powi (k + 1)"
    by (rule powr_real_of_int') simp_all
  have iff: "(\<lfloor>log 2 \<bar>x\<bar>\<rfloor> = k) = (2 powr real_of_int k \<le> \<bar>x\<bar> \<and> \<bar>x\<bar> < 2 powr real_of_int (k + 1))"
    using pos by (intro floor_log_eq_powr_iff) simp_all
  show ?thesis
    unfolding iff p1 p2 using assms by blast
qed

lemma fl64_normal:
  assumes "2 powi k \<le> \<bar>x\<bar>" and "\<bar>x\<bar> < 2 powi (k + 1)" and "- 1022 \<le> k"
  shows "fl64 x = of_int (round_half_even (x / 2 powi (k - 52))) * 2 powi (k - 52)"
proof -
  have "(0::real) < 2 powi k" by simp
  with assms(1) have "0 < \<bar>x\<bar>" by linarith
  then have "x \<noteq> 0" by simp
  moreover from assms have "ulp_exponent x = k - 52"
    by (simp add: ulp_exponent_def floor_log2_eq [OF assms(1,2)])
  ultimately show ?thesis by (simp add: fl64_def)
qed

lemma fl64_13_200: "fl64 (13 / 200) = 1170935903116329 / 2 ^ 54"
  by (subst fl64_normal [where k = "- 4"]) (simp_all add: round_half_even_def)

lemma fl64_base: "fl64 (1 + 1170935903116329 / 2 ^ 54) = 2398166801574789 / 2 ^ 51"
  by (subst fl64_normal [where k = 0]) (simp_all add: round_half_even_def)

lemma fl64_1: "fl64 1 = 1"
  by (subst fl64_normal [where k = 0]) (simp_all add: round_half_even_def)

lemma fl64_maturity: "fl64 (100000 * (2398166801574789 / 2 ^ 51)) = 106500"
  by (subst fl64_normal [where k = 16]) (simp_all add: round_half_even_def)

lemma fl64_interest: "fl64 6500 = 6500"
  by (subst fl64_normal [where k = 12]) (simp_all add: round_half_even_def)


lemma abs_lt_ulp:
  assumes "x \<noteq> 0"
  shows "\<bar>x\<bar> < 2 powi (ulp_exponent x + 53)"
proof -
  from assms have pos: "0 < \<bar>x\<bar>" by simp
  have "log 2 \<bar>x\<bar> < of_int (\<lfloor>log 2 \<bar>x\<bar>\<rfloor> + 1)" by linarith
  also have "\<dots> \<le> of_int (ulp_exponent x + 53)"
    unfolding ulp_exponent_def by (intro of_int_le_iff [THEN iffD2]) linarith
  finally have "\<bar>x\<bar> < 2 powr of_int (ulp_exponent x + 53)"
    using pos by (simp add: log_less_iff)
  also have "\<dots> = 2 powi (ulp_exponent x + 53)"
    by (rule powr_real_of_int') simp_all
  finally show ?thesis .
qed

lemma ulp_exponent_le:
  assumes "y \<noteq> 0" and "\<bar>y\<bar> < 2 powi (e + 53)" and "- 1074 \<le> e"
  shows "ulp_exponent y \<le> e"
proof -
  from assms(1) have pos: "0 < \<bar>y\<bar>" by simp
  have "(2::real) powi (e + 53) = 2 powr of_int (e + 53)"
    by (rule powr_real_of_int' [symmetric]) simp_all
  with assms(2) have "log 2 \<bar>y\<bar> < of_int (e + 53)"
    using pos by (simp add: log_less_iff)
  then have "\<lfloor>log 2 \<bar>y\<bar>\<rfloor> < e + 53" by (simp add: floor_less_iff)
  with assms(3) show ?thesis by (simp add: ulp_exponent_def)
qed

lemma grid_div:
  assumes "e' \<le> e"
  shows "of_int m * 2 powi e / 2 powi e' = (of_int (m * 2 ^ nat (e - e')) :: real)"
proof -
  have "(2::real) powi e = 2 powi (e - e') * 2 powi e'"
    by (simp flip: power_int_add)
  moreover have "(2::real) powi (e - e') = 2 ^ nat (e - e')"
    using assms by (simp add: power_int_def)
  ultimately have "(2::real) powi e = 2 ^ nat (e - e') * 2 powi e'" by simp
  then show ?thesis by simp
qed

lemma fl64_grid:
  assumes "ulp_exponent (of_int m * 2 powi e) \<le> e"
  shows "fl64 (of_int m * 2 powi e) = of_int m * 2 powi e"
proof (cases "m = 0")
  case True
  then show ?thesis by (simp add: fl64_def)
next
  case False
  let ?y = "of_int m * 2 powi e :: real"
  let ?e' = "ulp_exponent ?y"
  from False have y: "?y \<noteq> 0" by simp
  have d: "?y / 2 powi ?e' = of_int (m * 2 ^ nat (e - ?e'))"
    by (rule grid_div [OF assms])
  have "fl64 ?y = of_int (round_half_even (?y / 2 powi ?e')) * 2 powi ?e'"
    using y by (simp only: fl64_def if_False)
  also have "\<dots> = of_int (m * 2 ^ nat (e - ?e')) * 2 powi ?e'"
    by (simp only: d round_half_even_of_int)
  also have "\<dots> = ?y / 2 powi ?e' * 2 powi ?e'"
    by (simp only: d)
  also have "\<dots> = ?y" by simp
  finally show ?thesis .
qed

lemma fl64_idem: "fl64 (fl64 x) = fl64 x"
proof (cases "x = 0")
  case True
  then show ?thesis by (simp add: fl64_def)
next
  case False
  let ?e = "ulp_exponent x"
  let ?m = "round_half_even (x / 2 powi ?e)"
  have fl: "fl64 x = of_int ?m * 2 powi ?e"
    using False by (simp add: fl64_def)
  have e: "- 1074 \<le> ?e" by (simp add: ulp_exponent_def)
  have "\<bar>x\<bar> / 2 powi ?e < 2 powi (?e + 53) / 2 powi ?e"
    using abs_lt_ulp [OF False] by (simp add: divide_strict_right_mono)
  also have "\<dots> = 2 ^ 53" by (simp add: power_int_add)
  finally have "\<bar>x / 2 powi ?e\<bar> < 2 ^ 53" by (simp add: abs_divide)
  with round_half_even_close [of "x / 2 powi ?e"] have "\<bar>real_of_int ?m\<bar> < 2 ^ 53 + 1"
    by linarith
  then have "real_of_int \<bar>?m\<bar> < real_of_int (2 ^ 53 + 1)" by simp
  then have "\<bar>?m\<bar> < 2 ^ 53 + 1" by (simp only: of_int_less_iff)
  then have m: "\<bar>?m\<bar> \<le> 2 ^ 53" by simp
  show ?thesis
  proof (cases "\<bar>?m\<bar> = 2 ^ 53")
    case True
    then obtain h where h: "?m = 2 * h" "\<bar>h\<bar> = 2 ^ 52"
      by (cases "0 \<le> ?m") (auto intro: that [of "2 ^ 52"] that [of "- (2 ^ 52)"])
    have up: "of_int ?m * 2 powi ?e = (of_int h * 2 powi (?e + 1) :: real)"
      by (simp add: h(1) power_int_add)
    have "of_int h * 2 powi (?e + 1) \<noteq> (0::real)" using h(2) by auto
    moreover have "\<bar>of_int h * 2 powi (?e + 1) :: real\<bar> < 2 powi (?e + 1 + 53)"
    proof -
      have "\<bar>of_int h * 2 powi (?e + 1) :: real\<bar> = of_int \<bar>h\<bar> * 2 powi (?e + 1)"
        by (simp add: abs_mult)
      also have "\<dots> = 2 ^ 52 * 2 powi (?e + 1)" by (simp add: h(2))
      also have "\<dots> < 2 ^ 53 * 2 powi (?e + 1)" by simp
      also have "\<dots> = 2 powi (?e + 1 + 53)" by (simp add: power_int_add)
      finally show ?thesis .
    qed
    ultimately have "ulp_exponent (of_int h * 2 powi (?e + 1)) \<le> ?e + 1"
      using e by (intro ulp_exponent_le) simp_all
    then show ?thesis
      unfolding fl up by (rule fl64_grid)
  next
    case small: False
    show ?thesis
    proof (cases "?m = 0")
      case True
      then show ?thesis by (simp add: fl fl64_def)
    next
      case nz: False
      from m small have lt: "\<bar>?m\<bar> < 2 ^ 53" by linarith
      have "of_int ?m * 2 powi ?e \<noteq> (0::real)" using nz by simp
      moreover have "\<bar>of_int ?m * 2 powi ?e :: real\<bar> < 2 powi (?e + 53)"
      proof -
        have "\<bar>of_int ?m * 2 powi ?e :: real\<bar> = of_int \<bar>?m\<bar> * 2 powi ?e"
          by (simp add: abs_mult)
        also have "\<dots> < 2 ^ 53 * 2 powi ?e"
        proof -
          from lt have "real_of_int \<bar>?m\<bar> < real_of_int (2 ^ 53)"
            by (simp only: of_int_less_iff)
          then show ?thesis by simp
        qed
        also have "\<dots> = 2 powi (?e + 53)" by (simp add: power_int_add)
        finally show ?thesis .
      qed
      ultimately have "ulp_exponent (of_int ?m * 2 powi ?e) \<le> ?e"
        using e by (intro ulp_exponent_le) simp_all
      then show ?thesis
        unfolding fl by (rule fl64_grid)
    qed
  qed
qed


lemma annual_example_binary64: "fl64 (100000 * fl64 (1 + fl64 (13 / 2 / 100))) = 106500"
proof -
  have "fl64 (13 / 2 / 100) = 1170935903116329 / 2 ^ 54"
    using fl64_13_200 by simp
  then have "fl64 (1 + fl64 (13 / 2 / 100)) = 2398166801574789 / 2 ^ 51"
    by (simp only: fl64_base)
  then show ?thesis
    by (simp only: fl64_maturity)
qed

lemma floor_log2_bounds:
  assumes "0 < x"
  shows "2 powi \<lfloor>log 2 x\<rfloor> \<le> x \<and> x < 2 powi (\<lfloor>log 2 x\<rfloor> + 1)"
proof -
  let ?j = "\<lfloor>log 2 x\<rfloor>"
  have p1: "(2::real) powr real_of_int ?j = 2 powi ?j"
    by (rule powr_real_of_int') simp_all
  have p2: "(2::real) powr real_of_int (?j + 1) = 2 powi (?j + 1)"
    by (rule powr_real_of_int') simp_all
  have "(\<lfloor>log 2 x\<rfloor> = ?j) = (2 powr real_of_int ?j \<le> x \<and> x < 2 powr real_of_int (?j + 1))"
    using assms by (intro floor_log_eq_powr_iff) simp_all
  then show ?thesis unfolding p1 p2 by simp
qed

lemma powi2_less_imp:
  assumes "(2::real) powi m < 2 powi n"
  shows "m < n"
proof (rule ccontr)
  assume "\<not> m < n"
  then have "n \<le> m" by simp
  then have "(2::real) powi n \<le> 2 powi m"
    by (rule power_int_increasing) simp
  with assms show False by simp
qed

lemma round_half_even_ge: "of_int N \<le> y \<Longrightarrow> N \<le> round_half_even y"
  unfolding round_half_even_def Let_def
  by (auto simp: le_floor_iff intro: order_trans [of N "\<lfloor>y\<rfloor>"])

lemma fl64_positive_normal:
  assumes "2 powi (- 1022) \<le> x"
  obtains j where "- 1022 \<le> j" and "2 powi j \<le> x" and "x < 2 powi (j + 1)"
    and "fl64 x = of_int (round_half_even (x / 2 powi (j - 52))) * 2 powi (j - 52)"
proof -
  have "(0::real) < 2 powi (- 1022)" by simp
  with assms have pos: "0 < x" by linarith
  let ?j = "\<lfloor>log 2 x\<rfloor>"
  from floor_log2_bounds [OF pos] have b: "2 powi ?j \<le> x" "x < 2 powi (?j + 1)" by simp_all
  have "(2::real) powi (- 1022) < 2 powi (?j + 1)"
    using assms b(2) by linarith
  then have "- 1022 < ?j + 1" by (rule powi2_less_imp)
  then have j: "- 1022 \<le> ?j" by simp
  from pos have ax: "\<bar>x\<bar> = x" by simp
  have "fl64 x = of_int (round_half_even (x / 2 powi (?j - 52))) * 2 powi (?j - 52)"
    using b j by (intro fl64_normal) (simp_all add: ax)
  with j b show ?thesis by (rule that)
qed

lemma fl64_lower:
  assumes "2 powi (- 1022) \<le> x"
  shows "x * (1 - 1 / 2 ^ 53) \<le> fl64 x"
proof -
  from assms obtain j where j: "2 powi j \<le> x"
    and fl: "fl64 x = of_int (round_half_even (x / 2 powi (j - 52))) * 2 powi (j - 52)"
    by (rule fl64_positive_normal)
  let ?q = "(2::real) powi (j - 52)"
  let ?m = "round_half_even (x / ?q)"
  have q: "0 < ?q" by simp
  have "x / ?q - 1 / 2 \<le> of_int ?m"
    using round_half_even_close [of "x / ?q"] by linarith
  then have "(x / ?q - 1 / 2) * ?q \<le> of_int ?m * ?q"
    using q by (intro mult_right_mono) simp_all
  moreover have "(x / ?q - 1 / 2) * ?q = x - ?q / 2"
    using q by (simp add: left_diff_distrib)
  ultimately have "x - ?q / 2 \<le> fl64 x"
    by (simp only: fl)
  moreover have "?q / 2 = 2 powi j / 2 ^ 53"
    by (simp add: power_int_diff)
  moreover have "2 powi j / 2 ^ 53 \<le> x / 2 ^ 53"
    using j by (simp add: divide_right_mono)
  ultimately show ?thesis by (simp add: algebra_simps)
qed

lemma fl64_ge_one:
  assumes "1 \<le> x"
  shows "1 \<le> fl64 x"
proof -
  have "(2::real) powi (- 1022) \<le> 1" by (simp add: power_int_def field_simps)
  with assms have "2 powi (- 1022) \<le> x" by linarith
  then obtain j where j: "2 powi j \<le> x" "x < 2 powi (j + 1)"
    and fl: "fl64 x = of_int (round_half_even (x / 2 powi (j - 52))) * 2 powi (j - 52)"
    by (rule fl64_positive_normal)
  let ?q = "(2::real) powi (j - 52)"
  have q: "0 < ?q" by simp
  from assms j(2) have "(2::real) powi 0 < 2 powi (j + 1)" by simp
  then have "0 < j + 1" by (rule powi2_less_imp)
  then have j0: "0 \<le> j" by simp
  have "2 ^ 52 * ?q = (2::real) powi j" by (simp add: power_int_diff)
  with j(1) have "2 ^ 52 * ?q \<le> x" by simp
  then have "2 ^ 52 \<le> x / ?q" using q by (simp add: pos_le_divide_eq)
  then have "real_of_int (2 ^ 52) \<le> x / ?q" by simp
  then have "2 ^ 52 \<le> round_half_even (x / ?q)" by (rule round_half_even_ge)
  then have m: "real_of_int (2 ^ 52) \<le> of_int (round_half_even (x / ?q))"
    by (simp only: of_int_le_iff)
  have "real_of_int (2 ^ 52) * ?q \<le> of_int (round_half_even (x / ?q)) * ?q"
    by (rule mult_right_mono [OF m]) (use q in simp)
  moreover have "real_of_int (2 ^ 52) * ?q = 2 powi j"
    using \<open>2 ^ 52 * ?q = (2::real) powi j\<close> by simp
  ultimately have "2 powi j \<le> fl64 x"
    by (simp only: fl)
  moreover from j0 have "(1::real) \<le> 2 powi j"
    by (simp add: one_le_power_int) 
  ultimately show ?thesis by linarith
qed


lemma fl64_lower_bound:
  assumes "2 powi (- 1022) \<le> a" and "a \<le> x"
  shows "a * (1 - 1 / 2 ^ 53) \<le> fl64 x"
proof -
  from assms have "2 powi (- 1022) \<le> x" by linarith
  then have "x * (1 - 1 / 2 ^ 53) \<le> fl64 x" by (rule fl64_lower)
  moreover from assms(2) have "a * (1 - 1 / 2 ^ 53) \<le> x * (1 - 1 / 2 ^ 53)"
    by (intro mult_right_mono) simp_all
  ultimately show ?thesis by linarith
qed

lemma tiny_le: "1 / 2 ^ 20 \<le> a \<Longrightarrow> (2::real) powi (- 1022) \<le> a"
proof -
  assume a: "1 / 2 ^ 20 \<le> a"
  have "(2::real) powi (- 1022) \<le> 2 powi (- 20)"
    by (rule power_int_increasing) simp_all
  also have "\<dots> = 1 / 2 ^ 20" by (simp add: power_int_def field_simps)
  finally show ?thesis using a by linarith
qed

section \<open>One year, compounded annually\<close>

lemma binary64_simps [simp]:
  "num_add (binary64 pow) x y = fl64 (x + y)" "num_sub (binary64 pow) x y = fl64 (x - y)"
  "num_mul (binary64 pow) x y = fl64 (x * y)" "num_div (binary64 pow) x y = fl64 (x / y)"
  "Math_pow (binary64 pow) = pow"
  by (simp_all add: binary64_def)

lemma annual_binary64:
  assumes pow: "\<And>x. fl64 x = x \<Longrightarrow> pow x 1 = x"
    and "compoundingFrequency data = ''Annually''" and "tenure data = 1"
  shows "maturityAmount (onSubmit_results (binary64 pow) data)
           = fl64 (principal data * fl64 (1 + fl64 (interestRate data / 100)))"
proof -
  let ?base = "fl64 (1 + fl64 (interestRate data / 100))"
  have "pow ?base 1 = ?base" by (rule pow) (rule fl64_idem)
  then show ?thesis
    by (simp add: onSubmit_results_def Let_def assms(2,3) onSubmit_n_Annually fl64_idem fl64_1)
qed

text \<open>
  C7: with annual compounding and a tenure of one year the maturity amount is
  \<open>principal * (1 + rate / 100)\<close>: exactly so over the reals, and with each operation
  rounded in binary64 arithmetic, provided \<^verbatim>\<open>Math.pow\<close> returns a binary64 base unchanged
  for the exponent \<open>1\<close>. For the principal 100000 and the rate 6.5 the binary64
  computation gives the maturity amount 106500 and the total interest 6500.
\<close>

theorem annual_one_year:
  assumes "\<And>x. fl64 x = x \<Longrightarrow> pow x 1 = x"
  shows "onSubmit_results (binary64 pow) annual_data = \<lparr>maturityAmount = 106500, totalInterest = 6500\<rparr>
         \<and> (formSchema raw = Inr data \<and> compoundingFrequency data = ''Annually'' \<and> tenure data = 1 \<longrightarrow>
               maturityAmount (onSubmit_results exact data) = principal data * (1 + interestRate data / 100)
             \<and> maturityAmount (onSubmit_results (binary64 pow) data)
                 = fl64 (principal data * fl64 (1 + fl64 (interestRate data / 100))))"
proof (intro conjI impI; (elim conjE)?)
  have sel: "principal annual_data = 100000" "interestRate annual_data = 13 / 2"
    "compoundingFrequency annual_data = ''Annually''" "tenure annual_data = 1"
    by (simp_all add: annual_data_def)
  have "maturityAmount (onSubmit_results (binary64 pow) annual_data)
      = fl64 (principal annual_data * fl64 (1 + fl64 (interestRate annual_data / 100)))"
    by (rule annual_binary64 [where pow = pow, OF assms sel(3,4)])
  also have "\<dots> = fl64 (100000 * fl64 (1 + fl64 (13 / 2 / 100)))"
    by (simp only: sel)
  also have "\<dots> = 106500"
    by (rule annual_example_binary64)
  finally have m: "maturityAmount (onSubmit_results (binary64 pow) annual_data) = 106500" .
  have "totalInterest r = num_sub A (maturityAmount r) (principal d)"
    if "r = onSubmit_results A d" for r A d
    using that by (simp add: onSubmit_results_def Let_def)
  from this [OF refl, of "binary64 pow" annual_data] m
  have "totalInterest (onSubmit_results (binary64 pow) annual_data) = 6500"
    by (simp add: annual_data_def fl64_interest)
  with m show "onSubmit_results (binary64 pow) annual_data = \<lparr>maturityAmount = 106500, totalInterest = 6500\<rparr>"
    by (cases "onSubmit_results (binary64 pow) annual_data") simp
next
  assume valid: "formSchema raw = Inr data" and a: "compoundingFrequency data = ''Annually''"
    and t: "tenure data = 1"
  from valid have "0 \<le> 1 + interestRate data / 100" by (simp add: formSchema_Inr)
  then show "maturityAmount (onSubmit_results exact data) = principal data * (1 + interestRate data / 100)"
    by (simp add: onSubmit_results_def Let_def a t onSubmit_n_Annually)
  show "maturityAmount (onSubmit_results (binary64 pow) data)
      = fl64 (principal data * fl64 (1 + fl64 (interestRate data / 100)))"
    by (rule annual_binary64 [where pow = pow, OF assms a t])
qed

theorem annual_one_year_witness:
  "onSubmit_results (binary64 pow_exact_at_one) annual_data = \<lparr>maturityAmount = 106500, totalInterest = 6500\<rparr>
   \<and> formSchema annual_input = Inr annual_data
   \<and> maturityAmount (onSubmit_results exact annual_data) = 106500
   \<and> totalInterest (onSubmit_results exact annual_data) = 6500"
proof -
  have pow: "pow_exact_at_one x 1 = x" for x
    by (simp add: pow_exact_at_one_def)
  from annual_one_year [of pow_exact_at_one annual_input annual_data, OF pow] formSchema_annual
  have "onSubmit_results (binary64 pow_exact_at_one) annual_data = \<lparr>maturityAmount = 106500, totalInterest = 6500\<rparr>"
    and "maturityAmount (onSubmit_results exact annual_data) = principal annual_data * (1 + interestRate annual_data / 100)"
    by (simp_all add: annual_data_def)
  moreover have "totalInterest (onSubmit_results exact annual_data)
      = maturityAmount (onSubmit_results exact annual_data) - principal annual_data"
    by (simp add: onSubmit_results_def Let_def)
  ultimately show ?thesis
    by (simp add: formSchema_annual annual_data_def)
qed

section \<open>The maturity amount exceeds the principal\<close>

lemma binary64_base:
  assumes "formSchema raw = Inr data"
  shows "1 + 1 / 65536 \<le> fl64 (1 + fl64 (fl64 (interestRate data / 100) / onSubmit_n (compoundingFrequency data)))"
proof -
  let ?r = "interestRate data" and ?n = "onSubmit_n (compoundingFrequency data)"
  from assms have r: "1 / 10 \<le> ?r" by (simp add: formSchema_Inr)
  have n: "1 \<le> ?n" "?n \<le> 12" by (rule onSubmit_n_pos, rule onSubmit_n_le)
  have "1 / 1000 * (1 - 1 / 2 ^ 53) \<le> fl64 (?r / 100)"
    using r by (intro fl64_lower_bound tiny_le) simp_all
  then have rate: "1 / 1024 \<le> fl64 (?r / 100)" by simp
  have "1 / 1024 / 12 \<le> fl64 (?r / 100) / ?n"
    using rate n by (intro frac_le) simp_all
  then have "1 / 16384 * (1 - 1 / 2 ^ 53) \<le> fl64 (fl64 (?r / 100) / ?n)"
    by (intro fl64_lower_bound tiny_le) simp_all
  then have rn: "1 / 32768 \<le> fl64 (fl64 (?r / 100) / ?n)" by simp
  have "(1 + 1 / 32768) * (1 - 1 / 2 ^ 53) \<le> fl64 (1 + fl64 (fl64 (?r / 100) / ?n))"
    using rn by (intro fl64_lower_bound tiny_le) simp_all
  then show ?thesis by simp
qed

lemma binary64_exceeds:
  assumes valid: "formSchema raw = Inr data"
    and pow: "\<And>b e. fl64 b = b \<Longrightarrow> fl64 e = e \<Longrightarrow> 1 < b \<Longrightarrow> 1 \<le> e \<Longrightarrow> b powr e * (1 - 1 / 2 ^ 20) \<le> pow b e"
  shows "principal data < maturityAmount (onSubmit_results (binary64 pow) data)
         \<and> 0 < totalInterest (onSubmit_results (binary64 pow) data)"
proof -
  let ?p = "principal data" and ?t = "tenure data"
  let ?n = "onSubmit_n (compoundingFrequency data)"
  let ?base = "fl64 (1 + fl64 (fl64 (interestRate data / 100) / ?n))"
  let ?expo = "fl64 (?n * ?t)"
  let ?pw = "pow ?base ?expo"
  let ?m = "fl64 (?p * ?pw)"
  from valid have p: "1 \<le> ?p" and t: "1 \<le> ?t" by (simp_all add: formSchema_Inr)
  have n: "1 \<le> ?n" by (rule onSubmit_n_pos)
  have base: "1 + 1 / 65536 \<le> ?base" by (rule binary64_base [OF valid])
  then have base1: "1 < ?base" by simp
  from n t have "1 * 1 \<le> ?n * ?t" by (intro mult_mono) simp_all
  then have expo: "1 \<le> ?expo" by (intro fl64_ge_one) simp
  have "?base powr 1 \<le> ?base powr ?expo"
    using base1 expo by (intro powr_mono) simp_all
  with base1 have "?base \<le> ?base powr ?expo" by simp
  with base have "(1 + 1 / 65536) * (1 - 1 / 2 ^ 20) \<le> ?base powr ?expo * (1 - 1 / 2 ^ 20)"
    by (intro mult_right_mono) simp_all
  also have "\<dots> \<le> ?pw"
    using base1 expo by (intro pow fl64_idem)
  finally have pw: "1 + 1 / 131072 \<le> ?pw" by simp
  have "1 * (1 + 1 / 131072) \<le> ?p * ?pw"
    using p pw by (intro mult_mono) simp_all
  then have ppw: "1 / 2 ^ 20 \<le> ?p * ?pw" by simp
  have "?p * (1 + 1 / 131072) \<le> ?p * ?pw"
    using p pw by (intro mult_left_mono) simp_all
  then have "?p * (1 + 1 / 131072) * (1 - 1 / 2 ^ 53) \<le> ?p * ?pw * (1 - 1 / 2 ^ 53)"
    by (intro mult_right_mono) simp_all
  also have "\<dots> \<le> ?m"
    by (intro fl64_lower tiny_le ppw)
  finally have "?p * ((1 + 1 / 131072) * (1 - 1 / 2 ^ 53)) \<le> ?m" by (simp add: mult.assoc)
  moreover have "?p * (1 + 1 / 262144) \<le> ?p * ((1 + 1 / 131072) * (1 - 1 / 2 ^ 53))"
    using p by (intro mult_left_mono) simp_all
  ultimately have m: "?p * (1 + 1 / 262144) \<le> ?m" by linarith
  then have "?p + ?p / 262144 \<le> ?m" by (simp add: algebra_simps)
  with p have gap: "1 / 262144 \<le> ?m - ?p" by simp
  then have "1 / 262144 * (1 - 1 / 2 ^ 53) \<le> fl64 (?m - ?p)"
    by (intro fl64_lower_bound tiny_le) simp_all
  then have "0 < fl64 (?m - ?p)" by simp
  moreover from gap have "?p < ?m" by simp
  ultimately show ?thesis
    by (simp add: onSubmit_results_def Let_def)
qed

lemma pow_exact_at_one_accurate:
  assumes "1 < b" and "1 \<le> e"
  shows "b powr e * (1 - 1 / 2 ^ 20) \<le> pow_exact_at_one b e"
proof (cases "e = 1")
  case True
  with assms show ?thesis by (simp add: pow_exact_at_one_def algebra_simps)
next
  case False
  from assms have "1 \<le> b powr e" by (intro ge_one_powr_ge_zero) simp_all
  then have "b powr e * (1 - 1 / 2 ^ 53) \<le> fl64 (b powr e)"
    by (intro fl64_lower tiny_le) simp
  moreover have "b powr e * (1 - 1 / 2 ^ 20) \<le> b powr e * (1 - 1 / 2 ^ 53)"
    by (intro mult_left_mono) simp_all
  ultimately have "b powr e * (1 - 1 / 2 ^ 20) \<le> fl64 (b powr e)" by (rule order_trans [rotated])
  with False show ?thesis by (simp only: pow_exact_at_one_def if_False)
qed

text \<open>
  C10: for every validated submission (principal at least 1, tenure at least 1, rate in
  [0.1, 100]) the maturity amount is strictly greater than the principal and the total
  interest is strictly positive: over the reals, and for the values rounded in binary64
  arithmetic, provided \<^verbatim>\<open>Math.pow\<close> has a relative error of at most \<open>2 ^ -20\<close> on a
  binary64 base above 1 and a binary64 exponent of at least 1.
\<close>

theorem maturity_exceeds_principal:
  assumes "formSchema raw = Inr data"
  shows "principal data < maturityAmount (onSubmit_results exact data)
         \<and> 0 < totalInterest (onSubmit_results exact data)
         \<and> ((\<forall>b e. fl64 b = b \<and> fl64 e = e \<and> 1 < b \<and> 1 \<le> e
                 \<longrightarrow> b powr e * (1 - 1 / 2 ^ 20) \<le> pow b e)
              \<longrightarrow> principal data < maturityAmount (onSubmit_results (binary64 pow) data)
                  \<and> 0 < totalInterest (onSubmit_results (binary64 pow) data))"
proof -
  let ?n = "onSubmit_n (compoundingFrequency data)"
  let ?b = "1 + interestRate data / 100 / ?n"
  from assms have p: "1 \<le> principal data" and t: "1 \<le> tenure data"
    by (simp_all add: formSchema_Inr)
  have n: "1 \<le> ?n" by (rule onSubmit_n_pos)
  from n t have "0 < ?n * tenure data" by (simp add: mult_pos_pos)
  with base_gt_one [OF assms] have "1 < ?b powr (?n * tenure data)"
    by (rule gr_one_powr)
  with p have "principal data * 1 < principal data * ?b powr (?n * tenure data)"
    by (intro mult_strict_left_mono) simp_all
  then have "principal data < maturityAmount (onSubmit_results exact data)
      \<and> 0 < totalInterest (onSubmit_results exact data)"
    by (simp add: onSubmit_results_def Let_def)
  moreover have "principal data < maturityAmount (onSubmit_results (binary64 pow) data)
      \<and> 0 < totalInterest (onSubmit_results (binary64 pow) data)"
    if "\<forall>b e. fl64 b = b \<and> fl64 e = e \<and> 1 < b \<and> 1 \<le> e
           \<longrightarrow> b powr e * (1 - 1 / 2 ^ 20) \<le> pow b e"
    using assms that by (intro binary64_exceeds [where pow = pow and raw = raw]) blast+
  ultimately show ?thesis by blast
qed

theorem maturity_exceeds_principal_witness:
  "formSchema example_input = Inr example_data
   \<and> principal example_data < maturityAmount (onSubmit_results exact example_data)
   \<and> 0 < totalInterest (onSubmit_results exact example_data)
   \<and> principal example_data < maturityAmount (onSubmit_results (binary64 pow_exact_at_one) example_data)
   \<and> 0 < totalInterest (onSubmit_results (binary64 pow_exact_at_one) example_data)"
proof -
  have "\<forall>b e. fl64 b = b \<and> fl64 e = e \<and> 1 < b \<and> 1 \<le> e
      \<longrightarrow> b powr e * (1 - 1 / 2 ^ 20) \<le> pow_exact_at_one b e"
    by (intro allI impI pow_exact_at_one_accurate) blast+
  with maturity_exceeds_principal [OF formSchema_example, of pow_exact_at_one] formSchema_example
  show ?thesis by blast
qed

section \<open>A request with an overflowing result\<close>

text \<open>
  For the principal \<open>10 ^ 308\<close> at the rate 100 the maturity amount computed in binary64
  overflows, and the flow refuses the request without calling the text-generation service.
\<close>

lemma formSchema_overflow: "formSchema overflow_input = Inr overflow_data"
  by (simp add: overflow_input_def overflow_data_def formSchema_Num frequencies_def)

lemma fl64_2: "fl64 2 = 2"
  by (subst fl64_normal [where k = 1]) (simp_all add: round_half_even_def)

lemma big: "(2::real) ^ 1024 \<le> 2 * 10 ^ 308 * (1 - 1 / 2 ^ 53)"
  by simp

lemma overflow_maturity:
  "2 ^ 1024 \<le> maturityAmount (onSubmit_results (binary64 pow_exact_at_one) overflow_data)"
proof -
  have "maturityAmount (onSubmit_results (binary64 pow_exact_at_one) overflow_data) = fl64 (10 ^ 308 * 2)"
    by (simp add: onSubmit_results_def Let_def overflow_data_def onSubmit_n_Annually fl64_1 fl64_2
        pow_exact_at_one_def)
  moreover have "2 * 10 ^ 308 * (1 - 1 / 2 ^ 53) \<le> fl64 (10 ^ 308 * 2)"
    by (intro fl64_lower_bound tiny_le) simp_all
  ultimately show ?thesis using big by linarith
qed

lemma overflowing_request_refused:
  "explainFDResults prompt (onSubmit_request overflow_data (onSubmit_results (binary64 pow_exact_at_one) overflow_data))
     = Inl InvalidRequest"
  using overflow_maturity
  by (simp add: explainFDResults_def explainFDResultsFlow_def ExplainFDResultsInputSchema_def
      onSubmit_request_def z_number_def)

end
